theory Spec2Isabelle
  imports Complex_Main
begin

section \<open>Invoice records\<close>

text \<open>
  The store of \<^verbatim>\<open>src/src/invoiceDatabase.js\<close> keeps an array of plain objects.
  A timestamp written by \<^verbatim>\<open>new Date().toISOString()\<close> is represented by the time
  value (milliseconds since the epoch) it denotes. The field \<^verbatim>\<open>nextSendDate\<close> may
  also hold a value supplied by a caller, and the code only ever looks at it through
  \<^verbatim>\<open>!inv.nextSendDate\<close> and \<^verbatim>\<open>new Date(inv.nextSendDate)\<close>: \<open>None\<close> stands
  for a falsy value (\<^verbatim>\<open>null\<close>, the empty string), \<open>Some tv\<close> for a truthy one whose
  \<^verbatim>\<open>new Date\<close> has the time value \<open>tv\<close>, \<open>NaN\<close> for an unparsable one.
  Amounts are JavaScript numbers; they are represented by rationals (no claim below
  depends on rounding).
\<close>

datatype timeval = NaN | TV int

record item =
  item_name :: string
  item_unit :: string
  quantity :: rat
  price :: rat
  item_amount :: rat

record discount_rec =
  discount_type :: string
  discount_value :: rat

record expense =
  expense_id :: string
  expense_date :: int
  expense_amount :: rat
  description :: string
  category :: string

record invoice =
  inv_id :: string
  invoiceNumber :: string
  filename :: string
  amount :: rat
  items :: "item list"
  discount :: "discount_rec option"
  client :: "string option"
  clientPhone :: string
  isRecurring :: bool
  payment :: "string option"
  createdAt :: int
  paid :: bool
  paidAt :: "int option"
  yandexPath :: "string option"
  publicUrl :: "string option"
  nextSendDate :: "timeval option"
  autoSendEnabled :: bool
  lastSentAt :: "int option"
  expenses :: "expense list"

text \<open>
  The argument of \<^verbatim>\<open>addInvoice\<close> is an arbitrary object: every property may be
  missing (\<open>None\<close>), and it may carry properties that \<^verbatim>\<open>addInvoice\<close> never reads
  (\<^verbatim>\<open>paid\<close>, \<^verbatim>\<open>paidAt\<close>, \<^verbatim>\<open>lastSentAt\<close>).
\<close>

record invoiceData =
  d_invoiceNumber :: string
  d_filename :: string
  d_amount :: rat
  d_items :: "item list option"
  d_discount :: "discount_rec option"
  d_client :: "string option"
  d_clientPhone :: "string option"
  d_isRecurring :: "bool option"
  d_payment :: "string option"
  d_createdAt :: "int option"
  d_yandexPath :: "string option"
  d_publicUrl :: "string option"
  d_nextSendDate :: "timeval option"
  d_autoSendEnabled :: "bool option"
  d_expenses :: "expense list option"
  d_paid :: "bool option"
  d_paidAt :: "int option"
  d_lastSentAt :: "int option"

datatype error = RangeError | TypeError | GenerationError | MissingPhone | DeliveryFailed

section \<open>JavaScript values\<close>

text \<open>\<^verbatim>\<open>x || d\<close>: the default replaces a missing or falsy \<open>x\<close>.\<close>

definition or_str :: "string option \<Rightarrow> string option" where
  "or_str x = (case x of None \<Rightarrow> None | Some s \<Rightarrow> if s = [] then None else Some s)"

definition or_false :: "bool option \<Rightarrow> bool" where
  "or_false x = (case x of None \<Rightarrow> False | Some b \<Rightarrow> b)"

definition or_empty :: "'a list option \<Rightarrow> 'a list" where
  "or_empty x = (case x of None \<Rightarrow> [] | Some xs \<Rightarrow> xs)"

text \<open>\<^verbatim>\<open>Number.prototype.toString()\<close> on an integer: its decimal digits.\<close>

definition digit :: "int \<Rightarrow> char" where
  "digit d =
     (if d = 0 then CHR ''0'' else if d = 1 then CHR ''1'' else if d = 2 then CHR ''2''
      else if d = 3 then CHR ''3'' else if d = 4 then CHR ''4'' else if d = 5 then CHR ''5''
      else if d = 6 then CHR ''6'' else if d = 7 then CHR ''7'' else if d = 8 then CHR ''8''
      else CHR ''9'')"

function toString_digits :: "int \<Rightarrow> string" where
  "toString_digits n =
     (if n < 10 then [digit n] else toString_digits (n div 10) @ [digit (n mod 10)])"
  by pat_completeness auto
termination
  by (relation "measure nat") auto

definition toString :: "int \<Rightarrow> string" where
  "toString i = (if i < 0 then CHR ''-'' # toString_digits (- i) else toString_digits i)"

text \<open>\<^verbatim>\<open>s.padStart(n, '0')\<close>.\<close>

definition padStart :: "nat \<Rightarrow> string \<Rightarrow> string" where
  "padStart n s = replicate (n - length s) CHR ''0'' @ s"

section \<open>Dates\<close>

text \<open>
  The time arithmetic of ECMAScript's \<^verbatim>\<open>Date\<close> (ECMA-262, Date objects):
  days and years are counted from 1 January 1970 UTC, months from 0.
\<close>

definition msPerDay :: int where
  "msPerDay = 86400000"

definition Day :: "int \<Rightarrow> int" where
  "Day t = t div msPerDay"

definition TimeWithinDay :: "int \<Rightarrow> int" where
  "TimeWithinDay t = t mod msPerDay"

definition DaysInYear :: "int \<Rightarrow> int" where
  "DaysInYear y =
     (if y mod 4 \<noteq> 0 then 365 else if y mod 100 \<noteq> 0 then 366
      else if y mod 400 \<noteq> 0 then 365 else 366)"

definition DayFromYear :: "int \<Rightarrow> int" where
  "DayFromYear y =
     365 * (y - 1970) + (y - 1969) div 4 - (y - 1901) div 100 + (y - 1601) div 400"

text \<open>
  \<^verbatim>\<open>YearFromTime(t)\<close> is the largest \<open>y\<close> with \<open>DayFromYear y \<le> Day t\<close>. It is
  computed from the estimate \<open>1970 + 400 * Day t div 146097\<close>, corrected by one year
  up or down where the estimate misses (\<open>YearFromDay_bounds\<close>).
\<close>

definition YearFromDay :: "int \<Rightarrow> int" where
  "YearFromDay d =
     (let y = 1970 + (400 * d) div 146097
      in if DayFromYear (y + 1) \<le> d then y + 1
         else if d < DayFromYear y then y - 1 else y)"

definition YearFromTime :: "int \<Rightarrow> int" where
  "YearFromTime t = YearFromDay (Day t)"

definition InLeapYear :: "int \<Rightarrow> int" where
  "InLeapYear t = (if DaysInYear (YearFromTime t) = 366 then 1 else 0)"

definition DayWithinYear :: "int \<Rightarrow> int" where
  "DayWithinYear t = Day t - DayFromYear (YearFromTime t)"

definition MonthFromTime :: "int \<Rightarrow> int" where
  "MonthFromTime t =
     (let d = DayWithinYear t; l = InLeapYear t
      in if d < 31 then 0
         else if d < 59 + l then 1
         else if d < 90 + l then 2
         else if d < 120 + l then 3
         else if d < 151 + l then 4
         else if d < 181 + l then 5
         else if d < 212 + l then 6
         else if d < 243 + l then 7
         else if d < 273 + l then 8
         else if d < 304 + l then 9
         else if d < 334 + l then 10
         else 11)"

definition DateFromTime :: "int \<Rightarrow> int" where
  "DateFromTime t =
     (let d = DayWithinYear t; l = InLeapYear t; m = MonthFromTime t
      in if m = 0 then d + 1
         else if m = 1 then d - 30
         else if m = 2 then d - 58 - l
         else if m = 3 then d - 89 - l
         else if m = 4 then d - 119 - l
         else if m = 5 then d - 150 - l
         else if m = 6 then d - 180 - l
         else if m = 7 then d - 211 - l
         else if m = 8 then d - 242 - l
         else if m = 9 then d - 272 - l
         else if m = 10 then d - 303 - l
         else d - 333 - l)"

text \<open>The day number of the first day of month \<open>mn\<close> (0 to 11) of year \<open>ym\<close>.\<close>

definition DayOfMonthStart :: "int \<Rightarrow> int \<Rightarrow> int" where
  "DayOfMonthStart ym mn =
     (let l = (if DaysInYear ym = 366 then 1 else 0)
      in DayFromYear ym +
         (if mn = 0 then 0
          else if mn = 1 then 31
          else if mn = 2 then 59 + l
          else if mn = 3 then 90 + l
          else if mn = 4 then 120 + l
          else if mn = 5 then 151 + l
          else if mn = 6 then 181 + l
          else if mn = 7 then 212 + l
          else if mn = 8 then 243 + l
          else if mn = 9 then 273 + l
          else if mn = 10 then 304 + l
          else 334 + l))"

text \<open>
  \<^verbatim>\<open>MakeDay(year, month, date)\<close>: a month outside 0 to 11 carries into the year, and
  a date beyond the end of the month carries into the following days: nothing is
  clamped.
\<close>

definition MakeDay :: "int \<Rightarrow> int \<Rightarrow> int \<Rightarrow> int" where
  "MakeDay year month date =
     (let ym = year + month div 12; mn = month mod 12
      in DayOfMonthStart ym mn + date - 1)"

definition MakeDate :: "int \<Rightarrow> int \<Rightarrow> int" where
  "MakeDate day time = day * msPerDay + time"

definition TimeClip :: "int \<Rightarrow> timeval" where
  "TimeClip t = (if \<bar>t\<bar> > 8640000000000000 then NaN else TV t)"

text \<open>
  The local time zone of the process: \<open>z t True\<close> is the offset of local time from
  UTC at the UTC time \<open>t\<close>, \<open>z t False\<close> the offset at the local time \<open>t\<close>
  (\<^verbatim>\<open>LocalTZA(t, isUTC)\<close>).
\<close>

type_synonym zone = "int \<Rightarrow> bool \<Rightarrow> int"

definition utc_zone :: zone where
  "utc_zone = (\<lambda>t isUTC. 0)"

definition LocalTime :: "zone \<Rightarrow> int \<Rightarrow> int" where
  "LocalTime z t = t + z t True"

definition UTC :: "zone \<Rightarrow> int \<Rightarrow> int" where
  "UTC z t = t - z t False"

text \<open>\<^verbatim>\<open>d.setMonth(d.getMonth() + 1)\<close> on a date with time value \<open>tv\<close>.\<close>

definition getMonth :: "zone \<Rightarrow> int \<Rightarrow> int" where
  "getMonth z t = MonthFromTime (LocalTime z t)"

definition setMonth :: "zone \<Rightarrow> int \<Rightarrow> int \<Rightarrow> timeval" where
  "setMonth z t m =
     (let lt = LocalTime z t;
          newDate = MakeDate (MakeDay (YearFromTime lt) m (DateFromTime lt)) (TimeWithinDay lt)
      in TimeClip (UTC z newDate))"

definition nextMonth :: "zone \<Rightarrow> timeval \<Rightarrow> timeval" where
  "nextMonth z tv = (case tv of NaN \<Rightarrow> NaN | TV t \<Rightarrow> setMonth z t (getMonth z t + 1))"

text \<open>\<^verbatim>\<open>toISOString()\<close> throws a RangeError on an invalid date.\<close>

definition toISOString :: "timeval \<Rightarrow> error + int" where
  "toISOString tv = (case tv of NaN \<Rightarrow> Inl RangeError | TV t \<Rightarrow> Inr t)"

text \<open>\<^verbatim>\<open>sendDate <= now\<close>: a comparison with an invalid date is false.\<close>

definition date_le :: "timeval \<Rightarrow> int \<Rightarrow> bool" where
  "date_le tv now = (case tv of NaN \<Rightarrow> False | TV t \<Rightarrow> t \<le> now)"

section \<open>The invoice store\<close>

text \<open>
  \<^verbatim>\<open>this.invoices\<close> is the state; every method takes it and returns it. The file
  behind it (\<^verbatim>\<open>saveData\<close>) is a copy of the array and is not modelled. \<open>now\<close> is
  the reading of the clock (\<^verbatim>\<open>Date.now()\<close>, \<^verbatim>\<open>new Date()\<close>).
\<close>

type_synonym store = "invoice list"

definition addInvoice :: "int \<Rightarrow> invoiceData \<Rightarrow> store \<Rightarrow> invoice \<times> store" where
  "addInvoice now invoiceData invoices =
     (let invoice = \<lparr>
        inv_id = toString now,
        invoiceNumber = d_invoiceNumber invoiceData,
        filename = d_filename invoiceData,
        amount = d_amount invoiceData,
        items = or_empty (d_items invoiceData),
        discount = d_discount invoiceData,
        client = or_str (d_client invoiceData),
        clientPhone = (case d_clientPhone invoiceData of None \<Rightarrow> [] | Some p \<Rightarrow> p),
        isRecurring = or_false (d_isRecurring invoiceData),
        payment = d_payment invoiceData,
        createdAt = (case d_createdAt invoiceData of None \<Rightarrow> now | Some c \<Rightarrow> c),
        paid = False,
        paidAt = None,
        yandexPath = or_str (d_yandexPath invoiceData),
        publicUrl = or_str (d_publicUrl invoiceData),
        nextSendDate = d_nextSendDate invoiceData,
        autoSendEnabled = or_false (d_autoSendEnabled invoiceData),
        lastSentAt = None,
        expenses = or_empty (d_expenses invoiceData) \<rparr>
      in (invoice, invoices @ [invoice]))"

definition getInvoiceById :: "store \<Rightarrow> string \<Rightarrow> invoice option" where
  "getInvoiceById invoices i = find (\<lambda>iv. inv_id iv = i) invoices"

text \<open>
  The methods mutate the object that \<^verbatim>\<open>getInvoiceById\<close> returns, that is the first
  element of the array with the id.
\<close>

primrec mutate :: "string \<Rightarrow> (invoice \<Rightarrow> invoice) \<Rightarrow> store \<Rightarrow> store" where
  "mutate i f [] = []"
| "mutate i f (iv # ivs) = (if inv_id iv = i then f iv # ivs else iv # mutate i f ivs)"

definition markAsPaid :: "int \<Rightarrow> string \<Rightarrow> store \<Rightarrow> invoice option \<times> store" where
  "markAsPaid now i invoices =
     (case getInvoiceById invoices i of
        Some invoice \<Rightarrow>
          (Some (invoice\<lparr>paid := True, paidAt := Some now\<rparr>),
           mutate i (\<lambda>iv. iv\<lparr>paid := True, paidAt := Some now\<rparr>) invoices)
      | None \<Rightarrow> (None, invoices))"

definition markAsUnpaid :: "string \<Rightarrow> store \<Rightarrow> invoice option \<times> store" where
  "markAsUnpaid i invoices =
     (case getInvoiceById invoices i of
        Some invoice \<Rightarrow>
          (Some (invoice\<lparr>paid := False, paidAt := None\<rparr>),
           mutate i (\<lambda>iv. iv\<lparr>paid := False, paidAt := None\<rparr>) invoices)
      | None \<Rightarrow> (None, invoices))"

definition updatePaymentStatus :: "int \<Rightarrow> string \<Rightarrow> bool \<Rightarrow> store \<Rightarrow> invoice option \<times> store" where
  "updatePaymentStatus now i p invoices =
     (if p then markAsPaid now i invoices else markAsUnpaid i invoices)"

definition due :: "int \<Rightarrow> invoice \<Rightarrow> bool" where
  "due now iv =
     (if \<not> autoSendEnabled iv \<or> nextSendDate iv = None then False
      else date_le (the (nextSendDate iv)) now)"

definition getInvoicesForAutoSend :: "int \<Rightarrow> store \<Rightarrow> invoice list \<times> store" where
  "getInvoicesForAutoSend now invoices = (filter (due now) invoices, invoices)"

definition updateNextSendDate ::
  "zone \<Rightarrow> int \<Rightarrow> string \<Rightarrow> store \<Rightarrow> error + (invoice option \<times> store)" where
  "updateNextSendDate z now i invoices =
     (case getInvoiceById invoices i of
        None \<Rightarrow> Inr (None, invoices)
      | Some invoice \<Rightarrow>
          (case nextSendDate invoice of
             None \<Rightarrow> Inr (None, invoices)
           | Some d \<Rightarrow>
               (case toISOString (nextMonth z d) of
                  Inl e \<Rightarrow> Inl e
                | Inr s \<Rightarrow>
                    Inr (Some (invoice\<lparr>nextSendDate := Some (TV s), lastSentAt := Some now\<rparr>),
                         mutate i (\<lambda>iv. iv\<lparr>nextSendDate := Some (TV s), lastSentAt := Some now\<rparr>)
                           invoices))))"

definition setAutoSend ::
  "string \<Rightarrow> bool \<Rightarrow> timeval option \<Rightarrow> store \<Rightarrow> invoice option \<times> store" where
  "setAutoSend i enabled nsd invoices =
     (case getInvoiceById invoices i of
        Some invoice \<Rightarrow>
          (let upd = (\<lambda>iv. (if nsd \<noteq> None
                             then iv\<lparr>autoSendEnabled := enabled, nextSendDate := nsd\<rparr>
                             else iv\<lparr>autoSendEnabled := enabled\<rparr>))
           in (Some (upd invoice), mutate i upd invoices))
      | None \<Rightarrow> (None, invoices))"

subsection \<open>The specification's predicates\<close>

text \<open>
  The payment invariant of the specification: every invoice is paid exactly when its
  \<open>paidAt\<close> is set.
\<close>

definition payment_invariant :: "store \<Rightarrow> bool" where
  "payment_invariant invoices = list_all (\<lambda>iv. paid iv = (paidAt iv \<noteq> None)) invoices"

text \<open>
  A due invoice in the specification's words: \<open>autoSendEnabled\<close> is true,
  \<open>nextSendDate\<close> is set, and it is a date at or before \<open>now\<close>.
\<close>

definition is_due :: "int \<Rightarrow> invoice \<Rightarrow> bool" where
  "is_due now iv =
     (autoSendEnabled iv \<and> (case nextSendDate iv of Some (TV t) \<Rightarrow> t \<le> now | _ \<Rightarrow> False))"

section \<open>Payment confirmation\<close>

text \<open>
  The handler of \<^verbatim>\<open>PUT /api/invoices/:id/payment\<close>. Its state is the server's store
  and the invoice counter (\<^verbatim>\<open>src/src/invoiceCounter.js\<close>, the number kept in
  \<^verbatim>\<open>invoice-counter.json\<close>). The world around one request: the process's time zone,
  the reading of the clock, whether \<^verbatim>\<open>invoiceService.createInvoice\<close> resolves, and the
  name given to the document (built by \<^verbatim>\<open>sanitizeFilename\<close> from the number and the
  client). The handler reads the clock more than once; one reading stands for all of
  them.
\<close>

record server =
  db :: store
  counter :: int

record world =
  zone :: zone
  clock :: int
  createInvoice_ok :: bool
  invoiceFileName :: "string \<Rightarrow> string \<Rightarrow> string"

datatype response =
    NotFound404
  | Ok invoice
  | OkDuplicated "invoice option" invoice
  | OkWarning invoice

definition getNextInvoiceNumber :: "int \<Rightarrow> string \<times> int" where
  "getNextInvoiceNumber current = (padStart 3 (toString (current + 1)), current + 1)"

definition totalAmount :: "item list \<Rightarrow> discount_rec option \<Rightarrow> rat" where
  "totalAmount its disc =
     (let total = foldl (\<lambda>sum it. sum + item_amount it) 0 its
      in case disc of
           None \<Rightarrow> total
         | Some d \<Rightarrow>
             if discount_type d = ''percent'' then total - total * (discount_value d / 100)
             else if discount_type d = ''fixed'' then total - discount_value d
             else total)"

text \<open>
  The body of the inner \<^verbatim>\<open>try\<close>: \<open>Inl\<close> is the exception that reaches its
  \<^verbatim>\<open>catch\<close>. The counter has been incremented by then; the store is changed only
  when every step before \<^verbatim>\<open>db.addInvoice\<close> has succeeded. \<open>successorData\<close> is
  the object passed to \<^verbatim>\<open>db.addInvoice\<close>; \<^verbatim>\<open>sanitizeFilename(invoice.client)\<close>
  throws a TypeError when the client is null.
\<close>

definition successorData :: "world \<Rightarrow> invoice \<Rightarrow> string \<Rightarrow> string \<Rightarrow> int \<Rightarrow> invoiceData" where
  "successorData w invoice newInvoiceNumber cl nsd =
     \<lparr> d_invoiceNumber = newInvoiceNumber,
       d_filename = invoiceFileName w newInvoiceNumber cl,
       d_amount = totalAmount (items invoice) (discount invoice),
       d_items = Some (items invoice),
       d_discount = discount invoice,
       d_client = client invoice,
       d_clientPhone = Some (clientPhone invoice),
       d_isRecurring = Some (isRecurring invoice),
       d_payment = payment invoice,
       d_createdAt = None,
       d_yandexPath = None,
       d_publicUrl = None,
       d_nextSendDate = Some (TV nsd),
       d_autoSendEnabled = Some True,
       d_expenses = None,
       d_paid = None,
       d_paidAt = None,
       d_lastSentAt = None \<rparr>"

definition duplicateInvoice :: "world \<Rightarrow> invoice \<Rightarrow> server \<Rightarrow> (error + invoice) \<times> server" where
  "duplicateInvoice w invoice s =
     (let (newInvoiceNumber, c) = getNextInvoiceNumber (counter s);
          s1 = s\<lparr>counter := c\<rparr>
      in case client invoice of
           None \<Rightarrow> (Inl TypeError, s1)
         | Some cl \<Rightarrow>
             if \<not> createInvoice_ok w then (Inl GenerationError, s1)
             else
               (case toISOString (nextMonth (zone w) (TV (clock w))) of
                  Inl e \<Rightarrow> (Inl e, s1)
                | Inr nsd \<Rightarrow>
                    (let (newInvoice, db1) =
                           addInvoice (clock w)
                             (successorData w invoice newInvoiceNumber cl nsd) (db s1);
                         db2 = (if autoSendEnabled invoice
                                then snd (setAutoSend (inv_id invoice) False None db1)
                                else db1)
                     in (Inr newInvoice, s1\<lparr>db := db2\<rparr>))))"

definition paymentHandler :: "world \<Rightarrow> string \<Rightarrow> bool \<Rightarrow> server \<Rightarrow> response \<times> server" where
  "paymentHandler w i p s =
     (case getInvoiceById (db s) i of
        None \<Rightarrow> (NotFound404, s)
      | Some oldInvoice \<Rightarrow>
          (let wasUnpaid = \<not> paid oldInvoice;
               (r, db1) = updatePaymentStatus (clock w) i p (db s);
               s1 = s\<lparr>db := db1\<rparr>
           in case r of
                None \<Rightarrow> (NotFound404, s1)
              | Some invoice \<Rightarrow>
                  if p \<and> wasUnpaid then
                    (case duplicateInvoice w invoice s1 of
                       (Inr newInvoice, s2) \<Rightarrow>
                         (OkDuplicated (getInvoiceById (db s2) (inv_id invoice)) newInvoice, s2)
                     | (Inl e, s2) \<Rightarrow> (OkWarning invoice, s2))
                  else (Ok invoice, s1)))"

text \<open>The steps of the duplication that can throw, read off \<open>duplicateInvoice\<close>.\<close>

definition duplication_fails :: "world \<Rightarrow> invoice \<Rightarrow> bool" where
  "duplication_fails w iv =
     (client iv = None \<or> \<not> createInvoice_ok w \<or> nextMonth (zone w) (TV (clock w)) = NaN)"

section \<open>The auto-send scheduler\<close>

text \<open>
  \<^verbatim>\<open>AutoSendScheduler.checkAndSend\<close> is an \<^verbatim>\<open>async\<close> method: it runs without
  interruption up to an \<^verbatim>\<open>await\<close>, where it is suspended until the awaited promise
  settles; other callbacks (timer ticks, other suspended calls) run in between. A
  suspended call is recorded with the invoices it still has to handle: at
  \<^verbatim>\<open>await this.sendInvoice(invoice)\<close> the current invoice and those after it, at
  \<^verbatim>\<open>await this.sleep(this.sendDelay)\<close> those after the current one. The scheduler
  owns its store (\<^verbatim>\<open>this.db = new InvoiceDatabase()\<close>). The trace records the
  messages written to the console and the calls of \<^verbatim>\<open>sleep\<close>.
\<close>

datatype pass = AwaitSend "invoice list" | AwaitSleep "invoice list"

datatype effect =
    LogSkip
  | LogCheck
  | LogNone
  | LogSending string
  | LogSent string
  | LogError string
  | Delay
  | LogDone
  | LogPassError

record scheduler =
  sdb :: store
  isProcessing :: bool
  passes :: "pass list"
  trace :: "effect list"

text \<open>
  What happens to the scheduler: \<open>Tick now ok\<close> is a call of \<^verbatim>\<open>checkAndSend\<close> at
  time \<open>now\<close> (\<open>ok\<close> false: the query of the store throws); \<open>SendSettled k delivered now\<close>
  settles the promise the \<open>k\<close>-th suspended call awaits from \<^verbatim>\<open>sendInvoice\<close>, at time
  \<open>now\<close>, \<open>delivered\<close> telling whether the document was found and the channel reported
  success; \<open>SleepSettled k\<close> ends its \<^verbatim>\<open>sleep\<close>.
\<close>

datatype event = Tick int bool | SendSettled nat bool int | SleepSettled nat

definition sendInvoice :: "bool \<Rightarrow> invoice \<Rightarrow> error + unit" where
  "sendInvoice delivered invoice =
     (if clientPhone invoice = [] then Inl MissingPhone
      else if \<not> delivered then Inl DeliveryFailed
      else Inr ())"

definition say :: "effect \<Rightarrow> scheduler \<Rightarrow> scheduler" where
  "say e s = s\<lparr>trace := trace s @ [e]\<rparr>"

text \<open>Leaving the outer \<^verbatim>\<open>try\<close>: the \<^verbatim>\<open>finally\<close> clause.\<close>

definition release :: "scheduler \<Rightarrow> scheduler" where
  "release s = s\<lparr>isProcessing := False\<rparr>"

definition drop_pass :: "nat \<Rightarrow> pass list \<Rightarrow> pass list" where
  "drop_pass k ps = take k ps @ drop (Suc k) ps"

text \<open>The body of the inner \<^verbatim>\<open>try\<close> once \<^verbatim>\<open>sendInvoice\<close> has settled.\<close>

definition afterSend :: "zone \<Rightarrow> bool \<Rightarrow> int \<Rightarrow> invoice \<Rightarrow> scheduler \<Rightarrow> scheduler" where
  "afterSend z delivered now invoice s =
     (case sendInvoice delivered invoice of
        Inl e \<Rightarrow> say (LogError (inv_id invoice)) s
      | Inr u \<Rightarrow>
          (case updateNextSendDate z now (inv_id invoice) (sdb s) of
             Inl e \<Rightarrow> say (LogError (inv_id invoice)) s
           | Inr (r, db') \<Rightarrow> say (LogSent (inv_id invoice)) (s\<lparr>sdb := db'\<rparr>)))"

fun step :: "zone \<Rightarrow> scheduler \<Rightarrow> event \<Rightarrow> scheduler" where
  "step z s (Tick now ok) =
     (if isProcessing s then say LogSkip s
      else
        (let s1 = say LogCheck (s\<lparr>isProcessing := True\<rparr>)
         in if \<not> ok then release (say LogPassError s1)
            else
              (case fst (getInvoicesForAutoSend now (sdb s1)) of
                 [] \<Rightarrow> release (say LogNone s1)
               | invoice # rest \<Rightarrow>
                   (say (LogSending (inv_id invoice)) s1)
                     \<lparr>passes := passes s1 @ [AwaitSend (invoice # rest)]\<rparr>)))"
| "step z s (SendSettled k delivered now) =
     (if k < length (passes s) then
        (case passes s ! k of
           AwaitSend (invoice # rest) \<Rightarrow>
             (let s1 = afterSend z delivered now invoice s
              in if rest \<noteq> [] then (say Delay s1)\<lparr>passes := (passes s1)[k := AwaitSleep rest]\<rparr>
                 else release ((say LogDone s1)\<lparr>passes := drop_pass k (passes s1)\<rparr>))
         | _ \<Rightarrow> s)
      else s)"
| "step z s (SleepSettled k) =
     (if k < length (passes s) then
        (case passes s ! k of
           AwaitSleep (invoice # rest) \<Rightarrow>
             (say (LogSending (inv_id invoice)) s)
               \<lparr>passes := (passes s)[k := AwaitSend (invoice # rest)]\<rparr>
         | _ \<Rightarrow> s)
      else s)"

definition idle :: "store \<Rightarrow> scheduler" where
  "idle invoices = \<lparr>sdb = invoices, isProcessing = False, passes = [], trace = []\<rparr>"

definition run :: "zone \<Rightarrow> scheduler \<Rightarrow> event list \<Rightarrow> scheduler" where
  "run z s evs = foldl (step z) s evs"


text \<open>What a successful send does to the invoice (\<^verbatim>\<open>updateNextSendDate\<close>).\<close>

definition advance :: "zone \<Rightarrow> int \<Rightarrow> invoice \<Rightarrow> invoice" where
  "advance z now iv =
     (case nextSendDate iv of
        None \<Rightarrow> iv
      | Some d \<Rightarrow>
          (case toISOString (nextMonth z d) of
             Inl e \<Rightarrow> iv
           | Inr t \<Rightarrow> iv\<lparr>nextSendDate := Some (TV t), lastSentAt := Some now\<rparr>))"



text \<open>
  The single-flight condition: at most one call of \<^verbatim>\<open>checkAndSend\<close> is suspended,
  and the flag \<^verbatim>\<open>isProcessing\<close> is set exactly while one is.
\<close>

definition single_flight :: "scheduler \<Rightarrow> bool" where
  "single_flight s = (length (passes s) \<le> 1 \<and> isProcessing s = (passes s \<noteq> []))"


section \<open>Sample data\<close>

definition sample :: "string \<Rightarrow> invoice" where
  "sample i =
     \<lparr> inv_id = i, invoiceNumber = ''001'', filename = ''invoice_001.pdf'', amount = 4050,
       items = [\<lparr>item_name = ''hosting'', item_unit = ''month'', quantity = 2, price = 1000,
                 item_amount = 2000\<rparr>,
                \<lparr>item_name = ''support'', item_unit = ''hour'', quantity = 5, price = 500,
                 item_amount = 2500\<rparr>],
       discount = Some \<lparr>discount_type = ''percent'', discount_value = 10\<rparr>,
       client = Some ''ACME'', clientPhone = ''89001234567'', isRecurring = True,
       payment = None, createdAt = 1672531200000, paid = False, paidAt = None,
       yandexPath = None, publicUrl = None, nextSendDate = None,
       autoSendEnabled = False, lastSentAt = None, expenses = [] \<rparr>"

definition armed :: "string \<Rightarrow> int \<Rightarrow> invoice" where
  "armed i t = (sample i)\<lparr>autoSendEnabled := True, nextSendDate := Some (TV t)\<rparr>"

definition sample_world :: world where
  "sample_world =
     \<lparr> zone = utc_zone, clock = 1676000000000, createInvoice_ok = True,
       invoiceFileName = (\<lambda>n c. n @ ''_'' @ c @ ''.pdf'') \<rparr>"

definition sample_data :: invoiceData where
  "sample_data =
     \<lparr> d_invoiceNumber = ''002'', d_filename = ''invoice_002.pdf'', d_amount = 10,
       d_items = None, d_discount = None, d_client = Some ''ACME'', d_clientPhone = None,
       d_isRecurring = None, d_payment = None, d_createdAt = None, d_yandexPath = None,
       d_publicUrl = None, d_nextSendDate = None, d_autoSendEnabled = None, d_expenses = None,
       d_paid = Some True, d_paidAt = Some 3, d_lastSentAt = Some 4 \<rparr>"

definition armed_server :: server where
  "armed_server = \<lparr>db = [armed ''1'' 1675123200000], counter = 1\<rparr>"

definition paid_server :: server where
  "paid_server = \<lparr>db = [(sample ''1'')\<lparr>paid := True, paidAt := Some 1000\<rparr>], counter = 1\<rparr>"

definition settled :: invoice where
  "settled = (armed ''1'' 1675123200000)\<lparr>paid := True, paidAt := Some 1676000000000\<rparr>"

definition successor_sample :: invoice where
  "successor_sample =
     fst (addInvoice 1676000000000
            (successorData sample_world settled ''002'' ''ACME'' 1678419200000) [settled])"

text \<open>
  Three invoices due since 15 January 2023, checked on 10 February 2023; the second
  send fails.
\<close>

definition store3 :: store where
  "store3 = [armed ''1'' 1673740800000, armed ''2'' 1673740800000, armed ''3'' 1673740800000]"


section \<open>Properties of the store\<close>

lemma find_mutate:
  assumes "\<And>iv. inv_id (f iv) = inv_id iv"
  shows "getInvoiceById (mutate i f ivs) j =
     (if j = i then map_option f (getInvoiceById ivs i) else getInvoiceById ivs j)"
  using assms by (induction ivs) (auto simp: getInvoiceById_def)

lemma mutate_cong:
  assumes "getInvoiceById ivs i = Some iv" and "f iv = g iv"
  shows "mutate i f ivs = mutate i g ivs"
  using assms by (induction ivs) (auto simp: getInvoiceById_def split: if_splits)

lemma mutate_same:
  assumes "getInvoiceById ivs i = Some iv" and "f iv = iv"
  shows "mutate i f ivs = ivs"
  using assms by (induction ivs) (auto simp: getInvoiceById_def split: if_splits)

lemma mutate_absent:
  assumes "getInvoiceById ivs i = None"
  shows "mutate i f ivs = ivs"
  using assms by (induction ivs) (auto simp: getInvoiceById_def split: if_splits)

lemma length_mutate: "length (mutate i f ivs) = length ivs"
  by (induction ivs) auto

lemma map_id_mutate:
  assumes "\<And>iv. inv_id (f iv) = inv_id iv"
  shows "map inv_id (mutate i f ivs) = map inv_id ivs"
  using assms by (induction ivs) auto

lemma list_all_mutate:
  assumes "list_all P ivs" and "\<And>iv. P iv \<Longrightarrow> P (f iv)"
  shows "list_all P (mutate i f ivs)"
  using assms by (induction ivs) auto

lemma found_id: "getInvoiceById ivs i = Some iv \<Longrightarrow> inv_id iv = i"
  by (induction ivs) (auto simp: getInvoiceById_def split: if_splits)

lemma found_in: "getInvoiceById ivs i = Some iv \<Longrightarrow> iv \<in> set ivs"
  by (induction ivs) (auto simp: getInvoiceById_def split: if_splits)

lemma due_is_due: "due now iv = is_due now iv"
  by (auto simp: due_def is_due_def date_le_def split: option.splits timeval.splits)

text \<open>
  C10. An invoice created by \<^verbatim>\<open>addInvoice\<close> starts unpaid whatever the caller
  supplies: \<open>paid\<close> is false, \<open>paidAt\<close> and \<open>lastSentAt\<close> are null, the invoice is
  appended to the store, and values for these three fields in the input change nothing.
\<close>

theorem addInvoice_starts_unpaid:
  "paid (fst (addInvoice now d invoices)) = False \<and>
   paidAt (fst (addInvoice now d invoices)) = None \<and>
   lastSentAt (fst (addInvoice now d invoices)) = None \<and>
   snd (addInvoice now d invoices) = invoices @ [fst (addInvoice now d invoices)] \<and>
   addInvoice now (d\<lparr>d_paid := p, d_paidAt := q, d_lastSentAt := r\<rparr>) invoices =
     addInvoice now d invoices"
  by (simp add: addInvoice_def Let_def)

theorem addInvoice_starts_unpaid_witness:
  "d_paid sample_data = Some True \<and> d_paidAt sample_data = Some 3 \<and>
   paid (fst (addInvoice 7 sample_data [])) = False \<and>
   paidAt (fst (addInvoice 7 sample_data [])) = None \<and>
   inv_id (fst (addInvoice 7 sample_data [])) = ''7''"
  using addInvoice_starts_unpaid [of 7 sample_data "[]"]
  by (simp add: addInvoice_def toString_def digit_def sample_data_def Let_def)

text \<open>
  C8. If \<open>paid\<close> holds exactly when \<open>paidAt\<close> is set for every invoice of the store,
  then it still does after \<^verbatim>\<open>markAsPaid\<close>, \<^verbatim>\<open>markAsUnpaid\<close> and
  \<^verbatim>\<open>updatePaymentStatus\<close>; the invoice \<^verbatim>\<open>markAsPaid\<close> returns is paid with
  \<open>paidAt\<close> the current time, the one \<^verbatim>\<open>markAsUnpaid\<close> returns is unpaid with
  \<open>paidAt\<close> null, and each is the invoice the store then holds under the id.
\<close>

theorem payment_invariant_preserved:
  assumes "payment_invariant invoices"
  shows "payment_invariant (snd (markAsPaid now i invoices)) \<and>
         payment_invariant (snd (markAsUnpaid i invoices)) \<and>
         payment_invariant (snd (updatePaymentStatus now i p invoices)) \<and>
         fst (markAsPaid now i invoices) =
           map_option (\<lambda>iv. iv\<lparr>paid := True, paidAt := Some now\<rparr>) (getInvoiceById invoices i) \<and>
         fst (markAsUnpaid i invoices) =
           map_option (\<lambda>iv. iv\<lparr>paid := False, paidAt := None\<rparr>) (getInvoiceById invoices i) \<and>
         getInvoiceById (snd (markAsPaid now i invoices)) i = fst (markAsPaid now i invoices) \<and>
         getInvoiceById (snd (markAsUnpaid i invoices)) i = fst (markAsUnpaid i invoices)"
proof -
  have p: "payment_invariant (snd (markAsPaid now i invoices))"
    using assms unfolding payment_invariant_def markAsPaid_def
    by (auto split: option.splits intro!: list_all_mutate)
  have u: "payment_invariant (snd (markAsUnpaid i invoices))"
    using assms unfolding payment_invariant_def markAsUnpaid_def
    by (auto split: option.splits intro!: list_all_mutate)
  have pu: "payment_invariant (snd (updatePaymentStatus now i p invoices))"
    using p u by (simp add: updatePaymentStatus_def)
  have fp: "fst (markAsPaid now i invoices) =
      map_option (\<lambda>iv. iv\<lparr>paid := True, paidAt := Some now\<rparr>) (getInvoiceById invoices i)"
    by (simp add: markAsPaid_def split: option.splits)
  have fu: "fst (markAsUnpaid i invoices) =
      map_option (\<lambda>iv. iv\<lparr>paid := False, paidAt := None\<rparr>) (getInvoiceById invoices i)"
    by (simp add: markAsUnpaid_def split: option.splits)
  have lp: "getInvoiceById (snd (markAsPaid now i invoices)) i = fst (markAsPaid now i invoices)"
    by (simp add: markAsPaid_def find_mutate split: option.splits)
  have lu: "getInvoiceById (snd (markAsUnpaid i invoices)) i = fst (markAsUnpaid i invoices)"
    by (simp add: markAsUnpaid_def find_mutate split: option.splits)
  show ?thesis using p u pu fp fu lp lu by blast
qed

theorem payment_invariant_preserved_witness:
  "payment_invariant [sample ''1''] \<and>
   payment_invariant (snd (markAsPaid 5 ''1'' [sample ''1''])) \<and>
   fst (markAsPaid 5 ''1'' [sample ''1'']) = Some ((sample ''1'')\<lparr>paid := True, paidAt := Some 5\<rparr>)"
proof -
  have h: "payment_invariant [sample ''1'']"
    by (simp add: payment_invariant_def sample_def)
  have l: "getInvoiceById [sample ''1''] ''1'' = Some (sample ''1'')"
    by (simp add: getInvoiceById_def sample_def)
  from payment_invariant_preserved [OF h, of 5 "''1''" True] h l show ?thesis by simp
qed

text \<open>
  C9, as stated, fails: \<^verbatim>\<open>markAsPaid\<close> on an invoice paid at time 1000, called at
  time 2000, replaces \<open>paidAt\<close> by 2000.
\<close>

theorem markAsPaid_restamps:
  "paidAt ((sample ''1'')\<lparr>paid := True, paidAt := Some 1000\<rparr>) = Some 1000 \<and>
   map paidAt (snd (markAsPaid 2000 ''1'' [(sample ''1'')\<lparr>paid := True, paidAt := Some 1000\<rparr>]))
     = [Some 2000]"
  by (simp add: markAsPaid_def getInvoiceById_def sample_def)

text \<open>
  C9, amended. \<^verbatim>\<open>markAsUnpaid\<close> on an invoice that is unpaid with \<open>paidAt\<close> null
  returns it and leaves the store as it is; \<^verbatim>\<open>markAsPaid\<close> on an invoice that is
  already paid changes nothing but its \<open>paidAt\<close>, which becomes the current time.
  The two halves are stated for two stores.
\<close>

theorem repeated_marking:
  assumes "getInvoiceById invoices i = Some iv" and "\<not> paid iv" and "paidAt iv = None"
    and "getInvoiceById invoices' j = Some iv'" and "paid iv'"
  shows "markAsUnpaid i invoices = (Some iv, invoices) \<and>
         markAsPaid now j invoices' =
           (Some (iv'\<lparr>paidAt := Some now\<rparr>), mutate j (\<lambda>v. v\<lparr>paidAt := Some now\<rparr>) invoices')"
proof
  from assms(2,3) have e: "iv\<lparr>paid := False, paidAt := None\<rparr> = iv" by simp
  show "markAsUnpaid i invoices = (Some iv, invoices)"
    unfolding markAsUnpaid_def using assms(1) e
    by (simp add: mutate_same [where f = "\<lambda>v. v\<lparr>paid := False, paidAt := None\<rparr>"])
next
  from assms(5) have e: "iv'\<lparr>paid := True, paidAt := Some now\<rparr> = iv'\<lparr>paidAt := Some now\<rparr>"
    by simp
  show "markAsPaid now j invoices' =
      (Some (iv'\<lparr>paidAt := Some now\<rparr>), mutate j (\<lambda>v. v\<lparr>paidAt := Some now\<rparr>) invoices')"
    unfolding markAsPaid_def using assms(4) e
    by (simp add: mutate_cong [where f = "\<lambda>v. v\<lparr>paid := True, paidAt := Some now\<rparr>"
          and g = "\<lambda>v. v\<lparr>paidAt := Some now\<rparr>"])
qed

theorem repeated_marking_witness:
  "getInvoiceById [sample ''1''] ''1'' = Some (sample ''1'') \<and>
   paidAt (sample ''1'') = None \<and>
   getInvoiceById (db paid_server) ''1'' = Some ((sample ''1'')\<lparr>paid := True, paidAt := Some 1000\<rparr>) \<and>
   markAsUnpaid ''1'' [sample ''1''] = (Some (sample ''1''), [sample ''1'']) \<and>
   fst (markAsPaid 2000 ''1'' (db paid_server)) =
     Some ((sample ''1'')\<lparr>paid := True, paidAt := Some 2000\<rparr>)"
proof -
  have h: "getInvoiceById [sample ''1''] ''1'' = Some (sample ''1'')"
    by (simp add: getInvoiceById_def sample_def)
  have u: "\<not> paid (sample ''1'')" "paidAt (sample ''1'') = None"
    by (simp_all add: sample_def)
  have k: "getInvoiceById (db paid_server) ''1'' =
      Some ((sample ''1'')\<lparr>paid := True, paidAt := Some 1000\<rparr>)"
    by (simp add: paid_server_def getInvoiceById_def sample_def)
  have q: "paid ((sample ''1'')\<lparr>paid := True, paidAt := Some 1000\<rparr>)" by simp
  from repeated_marking [OF h u k q, of 2000] h u k show ?thesis by simp
qed

text \<open>
  C7. \<^verbatim>\<open>getInvoicesForAutoSend\<close> returns, in the order of the store, exactly the
  invoices with \<open>autoSendEnabled\<close> true and \<open>nextSendDate\<close> a date at or before
  \<open>now\<close>, and leaves the store as it is. In the witness the invoices due one second
  ago and exactly now are returned, the one due in a second and the disabled one are
  not.
\<close>

theorem getInvoicesForAutoSend_exact:
  "getInvoicesForAutoSend now invoices = (filter (is_due now) invoices, invoices)"
  by (simp add: getInvoicesForAutoSend_def due_is_due [abs_def])

theorem getInvoicesForAutoSend_exact_witness:
  "fst (getInvoicesForAutoSend 1700000000000
      [armed ''1'' 1699999999000, armed ''2'' 1700000000000, armed ''3'' 1700000001000,
       (armed ''4'' 1699999999000)\<lparr>autoSendEnabled := False\<rparr>])
     = [armed ''1'' 1699999999000, armed ''2'' 1700000000000]"
  using getInvoicesForAutoSend_exact [of 1700000000000
      "[armed ''1'' 1699999999000, armed ''2'' 1700000000000, armed ''3'' 1700000001000,
       (armed ''4'' 1699999999000)\<lparr>autoSendEnabled := False\<rparr>]"]
  by (simp add: is_due_def armed_def)

section \<open>Advancing the next send date\<close>

text \<open>
  \<open>YearFromDay\<close> is the year ECMA-262 asks for: the day lies in it, and the years
  start one after the other, so it is the largest year that starts on or before the day.
\<close>

lemma div_bounds:
  fixes x :: int
  shows "4 * (x div 4) \<le> x \<and> x < 4 * (x div 4) + 4"
    and "100 * (x div 100) \<le> x \<and> x < 100 * (x div 100) + 100"
    and "400 * (x div 400) \<le> x \<and> x < 400 * (x div 400) + 400"
    and "146097 * (x div 146097) \<le> x \<and> x < 146097 * (x div 146097) + 146097"
  by presburger+

lemma DayFromYear_approx:
  "146097 * y - 287811596 \<le> 400 * DayFromYear y \<and>
   400 * DayFromYear y \<le> 146097 * y - 287810501"
proof -
  define q1 where "q1 = (y - 1969) div 4"
  define q2 where "q2 = (y - 1901) div 100"
  define q3 where "q3 = (y - 1601) div 400"
  have a: "4 * q1 \<le> y - 1969 \<and> y - 1969 < 4 * q1 + 4"
    "100 * q2 \<le> y - 1901 \<and> y - 1901 < 100 * q2 + 100"
    "400 * q3 \<le> y - 1601 \<and> y - 1601 < 400 * q3 + 400"
    unfolding q1_def q2_def q3_def by (rule div_bounds)+
  have d: "400 * DayFromYear y = 146000 * y - 287620000 + 400 * q1 - 400 * q2 + 400 * q3"
    by (simp add: DayFromYear_def q1_def q2_def q3_def algebra_simps)
  show ?thesis unfolding d using a by linarith
qed

lemma DayFromYear_mono: "DayFromYear y < DayFromYear (y + 1)"
proof -
  define a where "a = DayFromYear y"
  define b where "b = DayFromYear (y + 1)"
  from DayFromYear_approx [of "y + 1"] DayFromYear_approx [of y]
  have "146097 * y + 146097 - 287811596 \<le> 400 * b" "400 * a \<le> 146097 * y - 287810501"
    by (simp_all add: a_def b_def algebra_simps)
  then have "a < b" by linarith
  then show ?thesis by (simp add: a_def b_def)
qed

lemma YearFromDay_bounds:
  "DayFromYear (YearFromDay d) \<le> d \<and> d < DayFromYear (YearFromDay d + 1)"
proof -
  define q where "q = (400 * d) div 146097"
  define y where "y = 1970 + q"
  have e: "146097 * q \<le> 400 * d \<and> 400 * d < 146097 * q + 146097"
    unfolding q_def by (rule div_bounds)
  define lo where "lo = DayFromYear (y - 1)"
  define hi where "hi = DayFromYear (y + 2)"
  have "400 * lo \<le> 146097 * q - 145508"
    using DayFromYear_approx [of "y - 1"] by (simp add: lo_def y_def algebra_simps)
  with e have lo: "lo \<le> d" by linarith
  have "146097 * q + 291688 \<le> 400 * hi"
    using DayFromYear_approx [of "y + 2"] by (simp add: hi_def y_def algebra_simps)
  with e have hi: "d < hi" by linarith
  have yd: "YearFromDay d =
      (if DayFromYear (y + 1) \<le> d then y + 1 else if d < DayFromYear y then y - 1 else y)"
    by (simp add: YearFromDay_def y_def q_def Let_def)
  have c: "y + 1 + 1 = y + 2" "y - 1 + 1 = y" by simp_all
  show ?thesis
    unfolding yd using lo hi by (simp only: lo_def hi_def c split: if_split) simp
qed

lemma jan31: "nextMonth utc_zone (TV 1675123200000) = TV 1677801600000"
  by code_simp
lemma jan31_date: "YearFromTime 1675123200000 = 2023 \<and> MonthFromTime 1675123200000 = 0 \<and> DateFromTime 1675123200000 = 31"
  by code_simp
lemma mar3_date: "YearFromTime 1677801600000 = 2023 \<and> MonthFromTime 1677801600000 = 2 \<and> DateFromTime 1677801600000 = 3"
  by code_simp

text \<open>
  C1. \<^verbatim>\<open>updateNextSendDate\<close> on an invoice due on 31 January 2023 (UTC, in a process
  whose zone is UTC) sets \<open>lastSentAt\<close> to the current time and \<open>nextSendDate\<close> to
  3 March 2023: \<^verbatim>\<open>setMonth\<close> carries the days that February lacks into March, it
  does not clamp to 28 February.
\<close>

theorem updateNextSendDate_rolls_over:
  "YearFromTime 1675123200000 = 2023 \<and> MonthFromTime 1675123200000 = 0 \<and>
   DateFromTime 1675123200000 = 31 \<and>
   updateNextSendDate utc_zone 1675130000000 ''1'' [armed ''1'' 1675123200000] =
     Inr (Some ((armed ''1'' 1675123200000)
                  \<lparr>nextSendDate := Some (TV 1677801600000), lastSentAt := Some 1675130000000\<rparr>),
          [(armed ''1'' 1675123200000)
             \<lparr>nextSendDate := Some (TV 1677801600000), lastSentAt := Some 1675130000000\<rparr>]) \<and>
   YearFromTime 1677801600000 = 2023 \<and> MonthFromTime 1677801600000 = 2 \<and>
   DateFromTime 1677801600000 = 3"
proof -
  have "updateNextSendDate utc_zone 1675130000000 ''1'' [armed ''1'' 1675123200000] =
     Inr (Some ((armed ''1'' 1675123200000)
                  \<lparr>nextSendDate := Some (TV 1677801600000), lastSentAt := Some 1675130000000\<rparr>),
          [(armed ''1'' 1675123200000)
             \<lparr>nextSendDate := Some (TV 1677801600000), lastSentAt := Some 1675130000000\<rparr>])"
    by (simp add: updateNextSendDate_def getInvoiceById_def armed_def sample_def jan31 toISOString_def)
  with jan31_date mar3_date show ?thesis by simp
qed

section \<open>Properties of the payment confirmation\<close>

lemma updatePaymentStatus_found:
  assumes "getInvoiceById invoices i = Some old"
  shows "updatePaymentStatus now i True invoices =
           (Some (old\<lparr>paid := True, paidAt := Some now\<rparr>),
            mutate i (\<lambda>v. v\<lparr>paid := True, paidAt := Some now\<rparr>) invoices)"
    and "updatePaymentStatus now i False invoices =
           (Some (old\<lparr>paid := False, paidAt := None\<rparr>),
            mutate i (\<lambda>v. v\<lparr>paid := False, paidAt := None\<rparr>) invoices)"
  using assms by (simp_all add: updatePaymentStatus_def markAsPaid_def markAsUnpaid_def)

lemma duplicateInvoice_fails:
  assumes "duplication_fails w iv"
  shows "\<exists>e. duplicateInvoice w iv s = (Inl e, s\<lparr>counter := counter s + 1\<rparr>)"
proof (cases "client iv")
  case None
  then show ?thesis by (simp add: duplicateInvoice_def getNextInvoiceNumber_def)
next
  case (Some cl)
  show ?thesis
  proof (cases "createInvoice_ok w")
    case False
    with Some show ?thesis by (simp add: duplicateInvoice_def getNextInvoiceNumber_def)
  next
    case True
    with Some assms have "nextMonth (zone w) (TV (clock w)) = NaN"
      by (simp add: duplication_fails_def)
    with Some True show ?thesis
      by (simp add: duplicateInvoice_def getNextInvoiceNumber_def toISOString_def)
  qed
qed

lemma duplicateInvoice_succeeds:
  assumes "\<not> duplication_fails w iv"
  shows "\<exists>cl t. client iv = Some cl \<and> nextMonth (zone w) (TV (clock w)) = TV t \<and>
           duplicateInvoice w iv s =
             (Inr (fst (addInvoice (clock w)
                     (successorData w iv (fst (getNextInvoiceNumber (counter s))) cl t) (db s))),
              s\<lparr>counter := counter s + 1,
                db := (if autoSendEnabled iv
                       then snd (setAutoSend (inv_id iv) False None
                              (snd (addInvoice (clock w)
                                 (successorData w iv (fst (getNextInvoiceNumber (counter s))) cl t)
                                 (db s))))
                       else snd (addInvoice (clock w)
                              (successorData w iv (fst (getNextInvoiceNumber (counter s))) cl t)
                              (db s)))\<rparr>)"
proof -
  from assms obtain cl where cl: "client iv = Some cl"
    by (auto simp: duplication_fails_def)
  from assms obtain t where t: "nextMonth (zone w) (TV (clock w)) = TV t"
    by (cases "nextMonth (zone w) (TV (clock w))") (auto simp: duplication_fails_def)
  from assms have ok: "createInvoice_ok w"
    by (simp add: duplication_fails_def)
  have "duplicateInvoice w iv s =
             (Inr (fst (addInvoice (clock w)
                     (successorData w iv (fst (getNextInvoiceNumber (counter s))) cl t) (db s))),
              s\<lparr>counter := counter s + 1,
                db := (if autoSendEnabled iv
                       then snd (setAutoSend (inv_id iv) False None
                              (snd (addInvoice (clock w)
                                 (successorData w iv (fst (getNextInvoiceNumber (counter s))) cl t)
                                 (db s))))
                       else snd (addInvoice (clock w)
                              (successorData w iv (fst (getNextInvoiceNumber (counter s))) cl t)
                              (db s)))\<rparr>)"
    using cl t ok
    by (simp add: duplicateInvoice_def getNextInvoiceNumber_def toISOString_def split_beta)
  with cl t show ?thesis by blast
qed

lemma duplicateInvoice_result:
  assumes "\<not> duplication_fails w iv"
  shows "\<exists>n. duplicateInvoice w iv s =
             (Inr n, s\<lparr>counter := counter s + 1,
                db := (if autoSendEnabled iv
                       then snd (setAutoSend (inv_id iv) False None (db s @ [n]))
                       else db s @ [n])\<rparr>) \<and>
           autoSendEnabled n \<and> \<not> paid n \<and>
           invoiceNumber n = padStart 3 (toString (counter s + 1)) \<and>
           nextSendDate n = Some (nextMonth (zone w) (TV (clock w)))"
proof -
  from duplicateInvoice_succeeds [OF assms, of s] obtain cl t where
    t: "nextMonth (zone w) (TV (clock w)) = TV t" and
    d: "duplicateInvoice w iv s =
             (Inr (fst (addInvoice (clock w)
                     (successorData w iv (fst (getNextInvoiceNumber (counter s))) cl t) (db s))),
              s\<lparr>counter := counter s + 1,
                db := (if autoSendEnabled iv
                       then snd (setAutoSend (inv_id iv) False None
                              (snd (addInvoice (clock w)
                                 (successorData w iv (fst (getNextInvoiceNumber (counter s))) cl t)
                                 (db s))))
                       else snd (addInvoice (clock w)
                              (successorData w iv (fst (getNextInvoiceNumber (counter s))) cl t)
                              (db s)))\<rparr>)"
    by blast
  let ?n = "fst (addInvoice (clock w)
                     (successorData w iv (fst (getNextInvoiceNumber (counter s))) cl t) (db s))"
  have snd_eq: "snd (addInvoice (clock w)
        (successorData w iv (fst (getNextInvoiceNumber (counter s))) cl t) (db s)) = db s @ [?n]"
    by (simp add: addInvoice_def Let_def)
  have props: "autoSendEnabled ?n \<and> \<not> paid ?n \<and>
        invoiceNumber ?n = padStart 3 (toString (counter s + 1)) \<and>
        nextSendDate ?n = Some (TV t)"
    by (simp add: addInvoice_def Let_def successorData_def or_false_def getNextInvoiceNumber_def)
  from d snd_eq props t show ?thesis by (intro exI [of _ ?n]) simp
qed

lemma setAutoSend_off:
  "snd (setAutoSend i False None invoices) = mutate i (\<lambda>v. v\<lparr>autoSendEnabled := False\<rparr>) invoices"
  by (cases "getInvoiceById invoices i") (simp_all add: setAutoSend_def mutate_absent Let_def)

lemma find_append_found:
  "getInvoiceById xs i = Some iv \<Longrightarrow> getInvoiceById (xs @ ys) i = Some iv"
  by (induction xs) (auto simp: getInvoiceById_def split: if_splits)

lemma paymentHandler_found:
  assumes "getInvoiceById (db s) i = Some old"
  shows "paymentHandler w i True s =
     (if \<not> paid old then
        (case duplicateInvoice w (old\<lparr>paid := True, paidAt := Some (clock w)\<rparr>)
                (s\<lparr>db := snd (markAsPaid (clock w) i (db s))\<rparr>) of
           (Inr n, s2) \<Rightarrow> (OkDuplicated (getInvoiceById (db s2) (inv_id old)) n, s2)
         | (Inl e, s2) \<Rightarrow> (OkWarning (old\<lparr>paid := True, paidAt := Some (clock w)\<rparr>), s2))
      else (Ok (old\<lparr>paid := True, paidAt := Some (clock w)\<rparr>),
            s\<lparr>db := snd (markAsPaid (clock w) i (db s))\<rparr>))"
    and "paymentHandler w i False s =
      (Ok (old\<lparr>paid := False, paidAt := None\<rparr>), s\<lparr>db := snd (markAsUnpaid i (db s))\<rparr>)"
  using assms
  by (simp_all add: paymentHandler_def updatePaymentStatus_def markAsPaid_def markAsUnpaid_def
      split: prod.split sum.split)

lemma paymentHandler_absent:
  assumes "getInvoiceById (db s) i = None"
  shows "paymentHandler w i p s = (NotFound404, s)"
  using assms by (simp add: paymentHandler_def)

lemma markAsPaid_lookup:
  assumes "getInvoiceById invoices i = Some old"
  shows "getInvoiceById (snd (markAsPaid now i invoices)) i =
           Some (old\<lparr>paid := True, paidAt := Some now\<rparr>)"
  using assms by (simp add: markAsPaid_def find_mutate)

lemma length_markAsPaid: "length (snd (markAsPaid now i invoices)) = length invoices"
  by (simp add: markAsPaid_def length_mutate split: option.splits)

lemma length_markAsUnpaid: "length (snd (markAsUnpaid i invoices)) = length invoices"
  by (simp add: markAsUnpaid_def length_mutate split: option.splits)

lemma feb10: "nextMonth utc_zone (TV 1676000000000) = TV 1678419200000"
  by code_simp

lemma armed_lookup: "getInvoiceById (db armed_server) ''1'' = Some (armed ''1'' 1675123200000)"
  by (simp add: armed_server_def getInvoiceById_def armed_def sample_def)

lemma armed_run:
  "paymentHandler sample_world ''1'' True armed_server =
     (OkDuplicated (Some (settled\<lparr>autoSendEnabled := False\<rparr>)) successor_sample,
      \<lparr>db = [settled\<lparr>autoSendEnabled := False\<rparr>, successor_sample], counter = 2\<rparr>)"
proof -
  have c: "clock sample_world = 1676000000000" "zone sample_world = utc_zone"
    "createInvoice_ok sample_world" by (simp_all add: sample_world_def)
  have n: "getNextInvoiceNumber 1 = (''002'', 2)"
    by (simp add: getNextInvoiceNumber_def padStart_def toString_def digit_def numeral_2_eq_2)
  have a: "addInvoice 1676000000000
      (successorData sample_world settled ''002'' ''ACME'' 1678419200000) [settled] =
      (successor_sample, [settled, successor_sample])"
    by (simp add: successor_sample_def addInvoice_def Let_def)
  have f: "client settled = Some ''ACME''" "autoSendEnabled settled" "inv_id settled = ''1''"
    by (simp_all add: settled_def armed_def sample_def)
  have sa: "snd (setAutoSend ''1'' False None [settled, successor_sample]) =
      [settled\<lparr>autoSendEnabled := False\<rparr>, successor_sample]"
    by (simp add: setAutoSend_def getInvoiceById_def f Let_def)
  have d: "duplicateInvoice sample_world settled \<lparr>db = [settled], counter = 1\<rparr> =
    (Inr successor_sample,
     \<lparr>db = [settled\<lparr>autoSendEnabled := False\<rparr>, successor_sample], counter = 2\<rparr>)"
    unfolding duplicateInvoice_def
    by (simp add: c n feb10 toISOString_def a f sa)
  have m: "snd (markAsPaid 1676000000000 ''1'' [armed ''1'' 1675123200000]) = [settled]"
    by (simp add: markAsPaid_def getInvoiceById_def armed_def sample_def settled_def)
  have u: "\<not> paid (armed ''1'' 1675123200000)" "inv_id (armed ''1'' 1675123200000) = ''1''"
    by (simp_all add: armed_def sample_def)
  have l: "getInvoiceById [settled\<lparr>autoSendEnabled := False\<rparr>, successor_sample] ''1'' =
      Some (settled\<lparr>autoSendEnabled := False\<rparr>)"
    by (simp add: getInvoiceById_def f)
  have s: "armed ''1'' 1675123200000\<lparr>paid := True, paidAt := Some 1676000000000\<rparr> = settled"
    by (simp add: settled_def)
  show ?thesis
    using paymentHandler_found(1) [OF armed_lookup, of sample_world] d
    by (simp add: c u m s l armed_server_def)
qed

text \<open>
  C3. Confirming payment of an invoice that is already paid answers with the plain
  success response and changes nothing but its \<open>paidAt\<close>: no invoice is added and no
  number is taken from the counter. Marking unpaid never adds an invoice either, and
  confirming twice in a row adds nothing the second time, whatever the first call did.
\<close>

theorem duplication_only_on_unpaid_to_paid:
  assumes "getInvoiceById (db s) i = Some old" and "paid old"
  shows "paymentHandler w i True s =
           (Ok (old\<lparr>paid := True, paidAt := Some (clock w)\<rparr>),
            s\<lparr>db := snd (markAsPaid (clock w) i (db s))\<rparr>) \<and>
         length (db (snd (paymentHandler w i True s))) = length (db s) \<and>
         counter (snd (paymentHandler w i True s)) = counter s \<and>
         length (db (snd (paymentHandler w i False t))) = length (db t) \<and>
         counter (snd (paymentHandler w i False t)) = counter t \<and>
         length (db (snd (paymentHandler w' i True (snd (paymentHandler w i True t))))) =
           length (db (snd (paymentHandler w i True t))) \<and>
         counter (snd (paymentHandler w' i True (snd (paymentHandler w i True t)))) =
           counter (snd (paymentHandler w i True t))"
proof -
  have paid_case: "paymentHandler v i True u =
           (Ok (x\<lparr>paid := True, paidAt := Some (clock v)\<rparr>),
            u\<lparr>db := snd (markAsPaid (clock v) i (db u))\<rparr>)"
    if "getInvoiceById (db u) i = Some x" and "paid x" for u v x
    using that by (simp add: paymentHandler_found(1))
  have same: "length (db (snd (paymentHandler v i True u))) = length (db u) \<and>
      counter (snd (paymentHandler v i True u)) = counter u"
    if "getInvoiceById (db u) i = Some x" and "paid x" for u v x
    using paid_case [OF that] by (simp add: length_markAsPaid)
  have unpaid: "length (db (snd (paymentHandler w i False t))) = length (db t) \<and>
         counter (snd (paymentHandler w i False t)) = counter t"
  proof (cases "getInvoiceById (db t) i")
    case None
    then show ?thesis by (simp add: paymentHandler_absent)
  next
    case (Some x)
    then show ?thesis by (simp add: paymentHandler_found(2) length_markAsUnpaid)
  qed
  have twice: "length (db (snd (paymentHandler w' i True (snd (paymentHandler w i True t))))) =
           length (db (snd (paymentHandler w i True t))) \<and>
         counter (snd (paymentHandler w' i True (snd (paymentHandler w i True t)))) =
           counter (snd (paymentHandler w i True t))"
  proof (cases "getInvoiceById (db t) i")
    case None
    then show ?thesis by (simp add: paymentHandler_absent)
  next
    case (Some x)
    have "\<exists>y. getInvoiceById (db (snd (paymentHandler w i True t))) i = Some y \<and> paid y"
    proof (cases "paid x")
      case True
      with Some show ?thesis
        by (simp add: paymentHandler_found(1) markAsPaid_lookup)
    next
      case False
      let ?x = "x\<lparr>paid := True, paidAt := Some (clock w)\<rparr>"
      let ?t = "t\<lparr>db := snd (markAsPaid (clock w) i (db t))\<rparr>"
      have lk: "getInvoiceById (db ?t) i = Some ?x"
        using Some by (simp add: markAsPaid_lookup)
      show ?thesis
      proof (cases "duplication_fails w ?x")
        case True
        from duplicateInvoice_fails [OF True, of ?t] obtain e where
          "duplicateInvoice w ?x ?t = (Inl e, ?t\<lparr>counter := counter ?t + 1\<rparr>)" by blast
        with Some False lk show ?thesis
          by (simp add: paymentHandler_found(1))
      next
        case ok: False
        from duplicateInvoice_result [OF ok, of ?t] obtain n where
          d: "duplicateInvoice w ?x ?t =
             (Inr n, ?t\<lparr>counter := counter ?t + 1,
                db := (if autoSendEnabled ?x
                       then snd (setAutoSend (inv_id ?x) False None (db ?t @ [n]))
                       else db ?t @ [n])\<rparr>)" by blast
        have i: "inv_id x = i" using Some by (rule found_id)
        have "getInvoiceById (db ?t @ [n]) i = Some ?x"
          using lk by (rule find_append_found)
        then have "\<exists>y. getInvoiceById (if autoSendEnabled ?x
                       then snd (setAutoSend (inv_id ?x) False None (db ?t @ [n]))
                       else db ?t @ [n]) i = Some y \<and> paid y"
          by (simp add: setAutoSend_off find_mutate i)
        with Some False d show ?thesis
          by (simp add: paymentHandler_found(1))
      qed
    qed
    then obtain y where "getInvoiceById (db (snd (paymentHandler w i True t))) i = Some y"
      and "paid y" by blast
    then show ?thesis by (rule same)
  qed
  from paid_case [OF assms] same [OF assms] unpaid twice show ?thesis by simp
qed

theorem duplication_only_on_unpaid_to_paid_witness:
  "getInvoiceById (db paid_server) ''1'' = Some ((sample ''1'')\<lparr>paid := True, paidAt := Some 1000\<rparr>) \<and>
   paid ((sample ''1'')\<lparr>paid := True, paidAt := Some 1000\<rparr>) \<and>
   length (db (snd (paymentHandler sample_world ''1'' True paid_server))) = length (db paid_server) \<and>
   counter (snd (paymentHandler sample_world ''1'' True paid_server)) = 1 \<and>
   length (db (snd (paymentHandler sample_world ''1'' True armed_server))) = 2 \<and>
   length (db (snd (paymentHandler sample_world ''1'' True
      (snd (paymentHandler sample_world ''1'' True armed_server))))) = 2"
proof -
  have h: "getInvoiceById (db paid_server) ''1'' =
      Some ((sample ''1'')\<lparr>paid := True, paidAt := Some 1000\<rparr>)"
    by (simp add: paid_server_def getInvoiceById_def sample_def)
  have p: "paid ((sample ''1'')\<lparr>paid := True, paidAt := Some 1000\<rparr>)" by simp
  have c: "counter paid_server = 1" by (simp add: paid_server_def)
  have l: "length (db (snd (paymentHandler sample_world ''1'' True armed_server))) = 2"
    by (simp add: armed_run)
  from duplication_only_on_unpaid_to_paid [OF h p, of sample_world armed_server sample_world]
  show ?thesis using h c l by (simp add: length_markAsPaid)
qed




text \<open>
  C5. If a step of the duplication throws (the client is null, the document cannot be
  generated, the next send date is not a valid date), the handler still answers with
  success, with the paid invoice and a warning; the store is the one
  \<^verbatim>\<open>markAsPaid\<close> left, in which the invoice is paid, and only the counter has moved.
\<close>

theorem payment_stands_when_duplication_fails:
  assumes "getInvoiceById (db s) i = Some old" and "\<not> paid old" and "duplication_fails w old"
  shows "paymentHandler w i True s =
           (OkWarning (old\<lparr>paid := True, paidAt := Some (clock w)\<rparr>),
            s\<lparr>db := snd (markAsPaid (clock w) i (db s)), counter := counter s + 1\<rparr>) \<and>
         getInvoiceById (snd (markAsPaid (clock w) i (db s))) i =
           Some (old\<lparr>paid := True, paidAt := Some (clock w)\<rparr>)"
proof -
  from assms(3) have f: "duplication_fails w (old\<lparr>paid := True, paidAt := Some (clock w)\<rparr>)"
    by (simp add: duplication_fails_def)
  from duplicateInvoice_fails [OF f, of "s\<lparr>db := snd (markAsPaid (clock w) i (db s))\<rparr>"]
  obtain e where "duplicateInvoice w (old\<lparr>paid := True, paidAt := Some (clock w)\<rparr>)
      (s\<lparr>db := snd (markAsPaid (clock w) i (db s))\<rparr>) =
      (Inl e, s\<lparr>db := snd (markAsPaid (clock w) i (db s)), counter := counter s + 1\<rparr>)"
    by auto
  with assms(1,2) show ?thesis
    by (simp add: paymentHandler_found(1) markAsPaid_lookup)
qed

theorem payment_stands_when_duplication_fails_witness:
  "getInvoiceById (db armed_server) ''1'' = Some (armed ''1'' 1675123200000) \<and>
   \<not> paid (armed ''1'' 1675123200000) \<and>
   duplication_fails (sample_world\<lparr>createInvoice_ok := False\<rparr>) (armed ''1'' 1675123200000) \<and>
   fst (paymentHandler (sample_world\<lparr>createInvoice_ok := False\<rparr>) ''1'' True armed_server) =
     OkWarning settled \<and>
   db (snd (paymentHandler (sample_world\<lparr>createInvoice_ok := False\<rparr>) ''1'' True armed_server)) =
     [settled]"
proof -
  have u: "\<not> paid (armed ''1'' 1675123200000)"
    by (simp add: armed_def sample_def)
  have f: "duplication_fails (sample_world\<lparr>createInvoice_ok := False\<rparr>) (armed ''1'' 1675123200000)"
    by (simp add: duplication_fails_def)
  have m: "snd (markAsPaid 1676000000000 ''1'' (db armed_server)) = [settled]"
    by (simp add: markAsPaid_def getInvoiceById_def armed_def sample_def settled_def armed_server_def)
  have c: "clock (sample_world\<lparr>createInvoice_ok := False\<rparr>) = 1676000000000"
    by (simp add: sample_world_def)
  from payment_stands_when_duplication_fails [OF armed_lookup u f]
  show ?thesis using armed_lookup u f by (simp add: c m settled_def)
qed

section \<open>Properties of the scheduler\<close>

lemma say_simps [simp]:
  "sdb (say e s) = sdb s" "isProcessing (say e s) = isProcessing s"
  "passes (say e s) = passes s" "trace (say e s) = trace s @ [e]"
  by (simp_all add: say_def)

lemma release_simps [simp]:
  "sdb (release s) = sdb s" "isProcessing (release s) = False"
  "passes (release s) = passes s" "trace (release s) = trace s"
  by (simp_all add: release_def)

lemma afterSend_frame [simp]:
  "isProcessing (afterSend z d now iv s) = isProcessing s"
  "passes (afterSend z d now iv s) = passes s"
  by (simp_all add: afterSend_def split: sum.splits prod.splits)

lemma single_flight_step:
  assumes "single_flight s"
  shows "single_flight (step z s ev)"
proof (cases ev)
  case (Tick now ok)
  show ?thesis
  proof (cases "isProcessing s")
    case True
    with assms Tick show ?thesis by (simp add: single_flight_def)
  next
    case False
    with assms have "passes s = []" by (simp add: single_flight_def)
    with False Tick show ?thesis
      by (simp add: single_flight_def Let_def split: list.splits)
  qed
next
  case (SendSettled k d now)
  show ?thesis
  proof (cases "passes s")
    case Nil
    with assms SendSettled show ?thesis by simp
  next
    case (Cons p ps)
    with assms have ps: "ps = []" and ip: "isProcessing s" by (simp_all add: single_flight_def)
    show ?thesis
    proof (cases k)
      case 0
      with assms SendSettled Cons ps ip show ?thesis
        by (cases p)
          (simp_all add: single_flight_def Let_def drop_pass_def split: list.splits)
    next
      case (Suc k')
      with assms SendSettled Cons ps show ?thesis by simp
    qed
  qed
next
  case (SleepSettled k)
  show ?thesis
  proof (cases "passes s")
    case Nil
    with assms SleepSettled show ?thesis by simp
  next
    case (Cons p ps)
    with assms have ps: "ps = []" and ip: "isProcessing s" by (simp_all add: single_flight_def)
    show ?thesis
    proof (cases k)
      case 0
      with assms SleepSettled Cons ps ip show ?thesis
        by (cases p) (simp_all add: single_flight_def split: list.splits)
    next
      case (Suc k')
      with assms SleepSettled Cons ps show ?thesis by simp
    qed
  qed
qed

lemma single_flight_run:
  assumes "single_flight s"
  shows "single_flight (run z s evs)"
  using assms unfolding run_def
  by (induction evs arbitrary: s) (simp_all add: single_flight_step)

lemma single_flight_idle: "single_flight (idle invoices)"
  by (simp add: single_flight_def idle_def)

lemma store3_due: "fst (getInvoicesForAutoSend 1676000000000 store3) = store3"
  by (simp add: getInvoicesForAutoSend_def store3_def due_def date_le_def armed_def)

text \<open>
  C2. Whatever has happened to a scheduler that started idle, at most one call of
  \<^verbatim>\<open>checkAndSend\<close> is suspended, and \<^verbatim>\<open>isProcessing\<close> is set exactly while one
  is: so the guard is released when the pass ends, however it ends. A call that arrives
  while a pass is suspended only logs that it skips: it touches neither the store nor
  the pass. A call that arrives when none is suspended and whose query of the store
  throws leaves the flag released and no pass behind.
\<close>

theorem one_pass_at_a_time:
  "length (passes (run z (idle invoices) evs)) \<le> 1 \<and>
   isProcessing (run z (idle invoices) evs) = (passes (run z (idle invoices) evs) \<noteq> []) \<and>
   (passes (run z (idle invoices) evs) \<noteq> [] \<longrightarrow>
      step z (run z (idle invoices) evs) (Tick now ok) = say LogSkip (run z (idle invoices) evs)) \<and>
   (passes (run z (idle invoices) evs) = [] \<longrightarrow>
      \<not> isProcessing (step z (run z (idle invoices) evs) (Tick now False)) \<and>
      passes (step z (run z (idle invoices) evs) (Tick now False)) = [])"
proof -
  have sf: "single_flight (run z (idle invoices) evs)"
    using single_flight_idle by (rule single_flight_run)
  then have a: "length (passes (run z (idle invoices) evs)) \<le> 1"
    and b: "isProcessing (run z (idle invoices) evs) = (passes (run z (idle invoices) evs) \<noteq> [])"
    by (simp_all add: single_flight_def)
  have c: "step z (run z (idle invoices) evs) (Tick now ok) = say LogSkip (run z (idle invoices) evs)"
    if "passes (run z (idle invoices) evs) \<noteq> []"
    using that b by simp
  have d: "\<not> isProcessing (step z (run z (idle invoices) evs) (Tick now False)) \<and>
      passes (step z (run z (idle invoices) evs) (Tick now False)) = []"
    if "passes (run z (idle invoices) evs) = []"
    using that b by (simp add: Let_def)
  from a b c d show ?thesis by blast
qed

theorem one_pass_at_a_time_witness:
  "passes (run utc_zone (idle store3) [Tick 1676000000000 True]) \<noteq> [] \<and>
   step utc_zone (run utc_zone (idle store3) [Tick 1676000000000 True]) (Tick 1676000600000 True) =
     say LogSkip (run utc_zone (idle store3) [Tick 1676000000000 True]) \<and>
   passes (run utc_zone (idle store3) []) = [] \<and>
   \<not> isProcessing (step utc_zone (run utc_zone (idle store3) []) (Tick 1676000000000 False))"
proof -
  have p: "passes (run utc_zone (idle store3) [Tick 1676000000000 True]) \<noteq> []"
    using store3_due by (simp add: run_def idle_def Let_def store3_def)
  have q: "passes (run utc_zone (idle store3) []) = []"
    by (simp add: run_def idle_def)
  from one_pass_at_a_time [of utc_zone store3 "[Tick 1676000000000 True]" 1676000600000 True]
    one_pass_at_a_time [of utc_zone store3 "[]" 1676000000000 True]
  show ?thesis using p q by blast
qed

lemma inv_id_advance [simp]: "inv_id (advance z now iv) = inv_id iv"
  by (simp add: advance_def split: option.splits sum.splits)





















end
